theory Spec2Isabelle
  imports Main
begin

section \<open>The missing-topic handler of \<^verbatim>\<open>src/missing-topic-handler.ts\<close>\<close>

text \<open>
  The program mirrors a directory of JSON files into a branch of a topic tree held by a
  messaging server. It consists of callbacks only: two of a filesystem watcher
  (\<^verbatim>\<open>unlink\<close>, \<^verbatim>\<open>change\<close>), one of a topic notification listener, one of a
  missing-topic handler, and the continuations of the two \<^verbatim>\<open>async\<close> methods
  \<^verbatim>\<open>setTopic\<close> and \<^verbatim>\<open>unsetTopic\<close>, each of which awaits one call to the server.

  The embedding passes the state of the handler explicitly. A callback is a function from
  state to state that runs the synchronous part of the source: up to the first
  \<^verbatim>\<open>await\<close>, where the outbound call has been issued and the rest of the method is
  parked under a fresh identifier. The rest runs when the server settles that call.
  The filesystem, \<^verbatim>\<open>JSON.parse\<close> and the outcome of a server call belong to the
  environment and are parameters.
\<close>

subsection \<open>Values that cross the boundary of the program\<close>

text \<open>
  What a \<^verbatim>\<open>catch\<close> block can receive. The source inspects one property only,
  \<^verbatim>\<open>err.errno\<close>: a system error of \<^verbatim>\<open>readFileSync\<close> carries a number there, the
  \<^verbatim>\<open>SyntaxError\<close> of \<^verbatim>\<open>JSON.parse\<close> has no such property, and what the server
  rejects a call with is up to the server.
\<close>

datatype err = FsError int | SyntaxError | ServerError "int option"

fun errno :: "err \<Rightarrow> int option" where
  "errno (FsError n) = Some n"
| "errno SyntaxError = None"
| "errno (ServerError e) = e"

text \<open>
  \<^verbatim>\<open>readFileSync(path).toString()\<close>: the text of the file, or the \<^verbatim>\<open>errno\<close> of the
  system error thrown (\<open>-2\<close> is "no such file or directory").
\<close>

type_synonym filesystem = "string \<Rightarrow> int + string"

text \<open>
  \<^verbatim>\<open>JSON.parse\<close> is a parameter \<open>parse\<close> of type \<open>string \<Rightarrow> 'v option\<close> throughout:
  \<open>None\<close> where it throws, and \<open>'v\<close> is the type of the values it returns.
\<close>

datatype topic_type = JSON

record topic_specification =
  spec_type :: topic_type
  spec_properties :: "(string \<times> string) list"

definition defaultTopicSpec :: topic_specification where
  \<open>defaultTopicSpec =
     \<lparr>spec_type = JSON, spec_properties = [(''REMOVAL'', ''when subscriptions < 1 for 1m'')]\<rparr>\<close>

text \<open>
  The two calls that change the topic tree: \<^verbatim>\<open>session.topicUpdate.set\<close> (path, value,
  specification to create the topic with) and \<^verbatim>\<open>session.topics.remove\<close>.
\<close>

datatype 'v server_call =
    TopicUpdateSet string 'v topic_specification
  | TopicsRemove string

fun call_path :: "'v server_call \<Rightarrow> string" where
  "call_path (TopicUpdateSet path content spec) = path"
| "call_path (TopicsRemove path) = path"

datatype outcome = Resolved | Rejected err

text \<open>A method suspended at its \<^verbatim>\<open>await\<close>, with the argument it was called with.\<close>

datatype continuation = AwaitSet string | AwaitRemove string

datatype level = Info | Warn | Error

datatype log_entry =
    Logger string level string
  | LoggerErr string level err
  | ConsoleLog string

datatype topic_notification_type = ADDED | REMOVED | SELECTED | DESELECTED | OTHER nat

record missing_topic_notification =
  mt_path :: string
  mt_selector :: string
  mt_sessionID :: string

subsection \<open>The state of the handler\<close>

text \<open>
  \<open>topics\<close> is the set that \<^verbatim>\<open>mapTopicPath\<close> returns and \<^verbatim>\<open>CDNHandler\<close> keeps.
  The other fields record what the program did: the calls to the server in the order
  issued, the methods waiting for the server (\<open>next_id\<close> names the next one), the lines
  logged, the rejections nobody handles, and the notifications told to proceed.
\<close>

record 'v mirror =
  topics :: "string set"
  calls :: "'v server_call list"
  inflight :: "nat \<rightharpoonup> continuation"
  next_id :: nat
  logged :: "log_entry list"
  unhandled :: "err list"
  proceeded :: "string list"

definition emit :: "log_entry \<Rightarrow> 'v mirror \<Rightarrow> 'v mirror" where
  "emit e s = s\<lparr>logged := logged s @ [e]\<rparr>"

definition await :: "'v server_call \<Rightarrow> continuation \<Rightarrow> 'v mirror \<Rightarrow> 'v mirror" where
  "await c k s =
     s\<lparr>calls := calls s @ [c],
       inflight := (inflight s)(next_id s \<mapsto> k),
       next_id := Suc (next_id s)\<rparr>"

subsection \<open>\<^verbatim>\<open>mapTopicPath\<close>\<close>

definition onTopicNotification ::
    "string \<Rightarrow> topic_notification_type \<Rightarrow> 'v mirror \<Rightarrow> 'v mirror" where
  "onTopicNotification path type s =
     (case type of
        ADDED \<Rightarrow>
          (emit (Logger ''topic-notification-listener'' Info
                   (''Topic '' @ path @ '' has been added'')) s)
            \<lparr>topics := insert path (topics s)\<rparr>
      | REMOVED \<Rightarrow>
          (emit (Logger ''topic-notification-listener'' Warn
                   (''Topic '' @ path @ '' has been removed'')) s)
            \<lparr>topics := topics s - {path}\<rparr>
      | SELECTED \<Rightarrow>
          (emit (Logger ''topic-notification-listener'' Info
                   (''Topic '' @ path @ '' existed at the time of the selector registration.'')) s)
            \<lparr>topics := insert path (topics s)\<rparr>
      | DESELECTED \<Rightarrow>
          (emit (Logger ''topic-notification-listener'' Warn
                   (''Topic '' @ path @ '' has been deselected'')) s)
            \<lparr>topics := topics s - {path}\<rparr>
      | OTHER n \<Rightarrow> s)"

definition onDescendantNotification ::
    "string \<Rightarrow> topic_notification_type \<Rightarrow> 'v mirror \<Rightarrow> 'v mirror" where
  "onDescendantNotification path type s = s"

definition selector_of :: "string \<Rightarrow> string" where
  "selector_of path = ''?'' @ path @ ''//''"

text \<open>
  \<^verbatim>\<open>mapTopicPath\<close> where both registrations are acknowledged: the set it returns,
  still empty, with the line logged. Where one of them is rejected, \<^verbatim>\<open>main\<close> ends in
  its \<^verbatim>\<open>catch\<close> before any callback exists.
\<close>

definition mapTopicPath :: "string \<Rightarrow> 'v mirror" where
  "mapTopicPath path =
     (let selector = selector_of path
      in \<lparr>topics = {}, calls = [], inflight = Map.empty, next_id = 0,
          logged = [Logger ''topic-notification-listener'' Info
                      (''Watching for missing topics that match '' @ selector)],
          unhandled = [], proceeded = []\<rparr>)"

subsection \<open>\<^verbatim>\<open>CDNHandler\<close>\<close>

text \<open>
  The \<^verbatim>\<open>catch\<close> block of \<^verbatim>\<open>setTopic\<close>. It is reached from a throw of
  \<^verbatim>\<open>readFileSync\<close> or \<^verbatim>\<open>JSON.parse\<close> and from a rejection of the awaited call.
\<close>

definition setTopic_catch :: "string \<Rightarrow> err \<Rightarrow> 'v mirror \<Rightarrow> 'v mirror" where
  "setTopic_catch path e s =
     (if errno e = Some (- 2)
      then emit (Logger ''CDNHandler'' Warn
                   (''Cannot satisfy missing topic '' @ path @ '', no existing file'')) s
      else emit (LoggerErr ''CDNHandler'' Error e) s)"

text \<open>\<^verbatim>\<open>setTopic\<close> up to its \<^verbatim>\<open>await\<close>.\<close>

definition setTopic ::
    "(string \<Rightarrow> 'v option) \<Rightarrow> filesystem \<Rightarrow> string \<Rightarrow> 'v mirror \<Rightarrow> 'v mirror" where
  "setTopic parse fs path s =
     (case fs path of
        Inl n \<Rightarrow> setTopic_catch path (FsError n) s
      | Inr text \<Rightarrow>
          (case parse text of
             None \<Rightarrow> setTopic_catch path SyntaxError s
           | Some content \<Rightarrow>
               await (TopicUpdateSet path content defaultTopicSpec) (AwaitSet path) s))"

text \<open>\<^verbatim>\<open>setTopic\<close> after its \<^verbatim>\<open>await\<close>.\<close>

definition setTopic_resume :: "string \<Rightarrow> outcome \<Rightarrow> 'v mirror \<Rightarrow> 'v mirror" where
  "setTopic_resume path out s =
     (case out of
        Resolved \<Rightarrow> s\<lparr>topics := insert path (topics s)\<rparr>
      | Rejected e \<Rightarrow> setTopic_catch path e s)"

text \<open>\<^verbatim>\<open>unsetTopic\<close> up to its \<^verbatim>\<open>await\<close>, and after it. Nothing catches a rejection.\<close>

definition unsetTopic :: "string \<Rightarrow> 'v mirror \<Rightarrow> 'v mirror" where
  "unsetTopic path s = await (TopicsRemove path) (AwaitRemove path) s"

definition unsetTopic_resume :: "string \<Rightarrow> outcome \<Rightarrow> 'v mirror \<Rightarrow> 'v mirror" where
  "unsetTopic_resume path out s =
     (case out of
        Resolved \<Rightarrow> s\<lparr>topics := topics s - {path}\<rparr>
      | Rejected e \<Rightarrow> s\<lparr>unhandled := unhandled s @ [e]\<rparr>)"

text \<open>The watcher's callbacks, as the constructor registers them.\<close>

definition on_unlink :: "string \<Rightarrow> 'v mirror \<Rightarrow> 'v mirror" where
  "on_unlink path s =
     (let s1 = emit (ConsoleLog (''File '' @ path @ '' unlinked'')) s
      in if path \<in> topics s1
         then emit (ConsoleLog (''Removed topic '' @ path)) (unsetTopic path s1)
         else s1)"

definition on_change ::
    "(string \<Rightarrow> 'v option) \<Rightarrow> filesystem \<Rightarrow> string \<Rightarrow> 'v mirror \<Rightarrow> 'v mirror" where
  "on_change parse fs path s =
     (if path \<in> topics s
      then setTopic parse fs path (emit (ConsoleLog (''Updated topic '' @ path)) s)
      else s)"

text \<open>
  \<^verbatim>\<open>handleMissingTopic\<close> calls \<^verbatim>\<open>setTopic\<close> without awaiting it. An \<^verbatim>\<open>async\<close>
  method hands every throw to its promise, so the \<^verbatim>\<open>catch\<close> around the call has
  nothing to receive.
\<close>

definition handleMissingTopic ::
    "(string \<Rightarrow> 'v option) \<Rightarrow> filesystem \<Rightarrow> string \<Rightarrow> 'v mirror \<Rightarrow> 'v mirror" where
  "handleMissingTopic parse fs path s = setTopic parse fs path s"

text \<open>\<^verbatim>\<open>CDNHandler.build\<close>: the handler works on the set of \<^verbatim>\<open>mapTopicPath\<close>.\<close>

definition build :: "string \<Rightarrow> 'v mirror" where
  "build pathPrefix = mapTopicPath pathPrefix"

subsection \<open>\<^verbatim>\<open>main\<close>\<close>

definition onMissingTopic ::
    "(string \<Rightarrow> 'v option) \<Rightarrow> filesystem \<Rightarrow> missing_topic_notification \<Rightarrow>
     'v mirror \<Rightarrow> 'v mirror" where
  "onMissingTopic parse fs notification s =
     (let s1 = emit (Logger ''missing-topic-handler'' Info
                  (''Missing topic notification: path='' @ mt_path notification
                   @ '', selector='' @ mt_selector notification
                   @ '', session='' @ mt_sessionID notification)) s;
          s2 = handleMissingTopic parse fs (mt_path notification) s1
      in s2\<lparr>proceeded := proceeded s2 @ [mt_path notification]\<rparr>)"

text \<open>
  What is registered where, for a handler built on \<open>pathPrefix\<close>: the directory given to
  \<^verbatim>\<open>watch\<close> in the constructor, the selector given to \<^verbatim>\<open>registration.select\<close> in
  \<^verbatim>\<open>mapTopicPath\<close>, and the path given to \<^verbatim>\<open>addMissingTopicHandler\<close> in \<^verbatim>\<open>main\<close>
  (\<^verbatim>\<open>cdnHandler.pathPrefix\<close>). \<^verbatim>\<open>main\<close> builds its handler on \<^verbatim>\<open>cdn\<close>.
\<close>

record registrations =
  watched :: string
  selected :: string
  missing_topic_path :: string

definition register :: "string \<Rightarrow> registrations" where
  "register pathPrefix =
     \<lparr>watched = pathPrefix, selected = selector_of pathPrefix,
      missing_topic_path = pathPrefix\<rparr>"

definition main_registrations :: registrations where
  "main_registrations = register ''cdn''"

definition main_state :: "'v mirror" where
  "main_state = build ''cdn''"

subsection \<open>The event loop\<close>

text \<open>
  The server settles the call parked under \<open>i\<close>: the method waiting there continues.
\<close>

definition settle :: "nat \<Rightarrow> outcome \<Rightarrow> 'v mirror \<Rightarrow> 'v mirror" where
  "settle i out s =
     (case inflight s i of
        None \<Rightarrow> s
      | Some k \<Rightarrow>
          (let s1 = s\<lparr>inflight := (inflight s)(i := None)\<rparr>
           in case k of
                AwaitSet path \<Rightarrow> setTopic_resume path out s1
              | AwaitRemove path \<Rightarrow> unsetTopic_resume path out s1))"

datatype event =
    Unlink string
  | Change string
  | TopicNotification string topic_notification_type
  | DescendantNotification string topic_notification_type
  | MissingTopic missing_topic_notification
  | Settle nat outcome

text \<open>One callback runs at a time, against the filesystem as it is at that moment.\<close>

fun step :: "(string \<Rightarrow> 'v option) \<Rightarrow> filesystem \<times> event \<Rightarrow> 'v mirror \<Rightarrow> 'v mirror" where
  "step parse (fs, Unlink path) s = on_unlink path s"
| "step parse (fs, Change path) s = on_change parse fs path s"
| "step parse (fs, TopicNotification path type) s = onTopicNotification path type s"
| "step parse (fs, DescendantNotification path type) s = onDescendantNotification path type s"
| "step parse (fs, MissingTopic notification) s = onMissingTopic parse fs notification s"
| "step parse (fs, Settle i out) s = settle i out s"

fun run :: "(string \<Rightarrow> 'v option) \<Rightarrow> (filesystem \<times> event) list \<Rightarrow> 'v mirror \<Rightarrow> 'v mirror" where
  "run parse [] s = s"
| "run parse (e # es) s = run parse es (step parse e s)"

text \<open>
  Modelled from the spec: what the watcher and the server deliver is not code of this
  program. A path is under a root when it is the root or a descendant of it; the selector
  \<^verbatim>\<open>?<prefix>//\<close> covers the prefix and all its descendants; the watcher reports paths
  under the directory it watches; a missing-topic handler receives requests under the path
  it is registered on.
\<close>

definition under :: "string \<Rightarrow> string \<Rightarrow> bool" where
  "under root path \<longleftrightarrow>
     path = root \<or> take (Suc (length root)) path = root @ ''/''"

definition selector_covers :: "string \<Rightarrow> string \<Rightarrow> bool" where
  "selector_covers selector path \<longleftrightarrow>
     (case selector of
        [] \<Rightarrow> False
      | c # rest \<Rightarrow>
          c = CHR ''?'' \<and> 2 \<le> length rest
          \<and> drop (length rest - 2) rest = ''//''
          \<and> under (take (length rest - 2) rest) path)"

fun in_scope :: "registrations \<Rightarrow> event \<Rightarrow> bool" where
  "in_scope r (Unlink path) = under (watched r) path"
| "in_scope r (Change path) = under (watched r) path"
| "in_scope r (TopicNotification path type) = selector_covers (selected r) path"
| "in_scope r (DescendantNotification path type) = selector_covers (selected r) path"
| "in_scope r (MissingTopic notification) = under (missing_topic_path r) (mt_path notification)"
| "in_scope r (Settle i out) = True"

subsection \<open>A small directory, for the scenarios\<close>

text \<open>
  One tracked topic \<^verbatim>\<open>cdn/a.json\<close>; on disk \<^verbatim>\<open>cdn/a.json\<close> and \<^verbatim>\<open>cdn/b.json\<close>
  hold JSON, \<^verbatim>\<open>cdn/bad.json\<close> does not, and nothing else exists. The parser knows the
  one text the scenarios use.
\<close>

definition demo_fs :: filesystem where
  \<open>demo_fs path =
     (if path = ''cdn/a.json'' then Inr ''{"x":1}''
      else if path = ''cdn/b.json'' then Inr ''{"x":1}''
      else if path = ''cdn/bad.json'' then Inr ''{''
      else Inl (- 2))\<close>

definition demo_parse :: "string \<Rightarrow> (string \<times> int) list option" where
  \<open>demo_parse text = (if text = ''{"x":1}'' then Some [(''x'', 1)] else None)\<close>

definition demo :: "(string \<times> int) list mirror" where
  "demo = run demo_parse [(demo_fs, TopicNotification ''cdn/a.json'' SELECTED)]
            main_state"

section \<open>Properties\<close>

subsection \<open>Auxiliary facts\<close>

lemmas callback_defs = emit_def await_def setTopic_def setTopic_catch_def setTopic_resume_def
  unsetTopic_def unsetTopic_resume_def on_unlink_def on_change_def handleMissingTopic_def
  onMissingTopic_def settle_def onTopicNotification_def onDescendantNotification_def

lemmas start_defs = demo_def main_state_def build_def mapTopicPath_def
  onTopicNotification_def emit_def Let_def

lemma demo_topics: "topics demo = {''cdn/a.json''}"
  by (simp add: start_defs)

lemma demo_next_id: "next_id demo = 0"
  by (simp add: start_defs)

lemma demo_inflight: "inflight demo = Map.empty"
  by (simp add: start_defs)

lemma demo_calls: "calls demo = []"
  by (simp add: start_defs)

lemma demo_unhandled: "unhandled demo = []"
  by (simp add: start_defs)

lemma demo_proceeded: "proceeded demo = []"
  by (simp add: start_defs)

lemmas demo_simps =
  demo_topics demo_next_id demo_inflight demo_calls demo_unhandled demo_proceeded

text \<open>Identifiers are handed out in increasing order, so a parked method stays parked
  until its own call is settled, whatever else happens in between.\<close>

lemma step_next_id: "next_id s \<le> next_id (step parse e s)"
proof (cases e)
  case (Pair fs ev)
  then show ?thesis
    by (cases ev)
       (auto simp: callback_defs Let_def
             split: sum.splits option.splits topic_notification_type.splits
                    continuation.splits outcome.splits)
qed

lemma step_inflight:
  assumes "i < next_id s" and "\<forall>out. snd e \<noteq> Settle i out"
  shows "inflight (step parse e s) i = inflight s i"
proof (cases e)
  case (Pair fs ev)
  with assms show ?thesis
    by (cases ev)
       (auto simp: callback_defs Let_def
             split: sum.splits option.splits topic_notification_type.splits
                    continuation.splits outcome.splits)
qed

lemma run_inflight:
  assumes "i < next_id s" and "\<forall>(fs, e) \<in> set evs. \<forall>out. e \<noteq> Settle i out"
  shows "inflight (run parse evs s) i = inflight s i"
  using assms
proof (induction evs arbitrary: s)
  case Nil
  then show ?case by simp
next
  case (Cons e evs)
  have "i < next_id (step parse e s)"
    using Cons.prems(1) step_next_id [of s parse e] by simp
  moreover have "\<forall>(fs, e) \<in> set evs. \<forall>out. e \<noteq> Settle i out"
    using Cons.prems(2) by simp
  ultimately have "inflight (run parse evs (step parse e s)) i = inflight (step parse e s) i"
    by (rule Cons.IH)
  moreover have "inflight (step parse e s) i = inflight s i"
    using Cons.prems by (intro step_inflight) auto
  ultimately show ?case by simp
qed

lemma settle_set_resolved:
  "inflight s i = Some (AwaitSet path) \<Longrightarrow>
     topics (settle i Resolved s) = insert path (topics s)"
  by (simp add: settle_def setTopic_resume_def)

lemma settle_remove_resolved:
  "inflight s i = Some (AwaitRemove path) \<Longrightarrow>
     topics (settle i Resolved s) = topics s - {path}"
  by (simp add: settle_def unsetTopic_resume_def)

lemma on_change_started:
  assumes "inflight s (next_id s) = None"
    and "inflight (on_change parse fs path s) (next_id s) = Some k"
  shows "\<exists>text content. fs path = Inr text \<and> parse text = Some content
           \<and> on_change parse fs path s =
               await (TopicUpdateSet path content defaultTopicSpec) (AwaitSet path)
                 (emit (ConsoleLog (''Updated topic '' @ path)) s)"
  using assms
  by (auto simp: on_change_def setTopic_def setTopic_catch_def emit_def
           split: if_splits sum.splits option.splits)

lemma on_unlink_tracked:
  "path \<in> topics s \<Longrightarrow>
     on_unlink path s =
       emit (ConsoleLog (''Removed topic '' @ path))
         (await (TopicsRemove path) (AwaitRemove path)
            (emit (ConsoleLog (''File '' @ path @ '' unlinked'')) s))"
  by (simp add: on_unlink_def unsetTopic_def emit_def Let_def)

lemma on_unlink_untracked:
  "path \<notin> topics s \<Longrightarrow>
     on_unlink path s = emit (ConsoleLog (''File '' @ path @ '' unlinked'')) s"
  by (simp add: on_unlink_def emit_def Let_def)

lemma selector_covers_selector_of: "selector_covers (selector_of root) path = under root path"
  by (simp add: selector_covers_def selector_of_def)

lemma step_calls_frame:
  assumes "in_scope (register root) e" and "\<not> under root path"
  shows "filter (\<lambda>c. call_path c = path) (calls (step parse (fs, e) s))
           = filter (\<lambda>c. call_path c = path) (calls s)"
proof -
  have self: "under root root"
    by (simp add: under_def)
  show ?thesis
    using assms
    by (cases e)
       (auto simp: callback_defs Let_def register_def selector_covers_selector_of
             split: sum.splits option.splits topic_notification_type.splits
                    continuation.splits outcome.splits)
qed

subsection \<open>A change of a file\<close>

text \<open>
  Claim C1. The \<^verbatim>\<open>change\<close> callback succeeds when it reaches the write to the server
  and the server resolves that write. Then the value written is what \<^verbatim>\<open>JSON.parse\<close>
  made of the file as read during the callback, and once the write has resolved the path
  is in the tracked set, whatever callbacks ran while the write was in flight.
\<close>

theorem change_success:
  assumes fresh: "inflight s (next_id s) = None"
    and started: "inflight (on_change parse fs path s) (next_id s) = Some (AwaitSet path)"
    and pending: "\<forall>(f, e) \<in> set evs. \<forall>out. e \<noteq> Settle (next_id s) out"
  shows "(\<exists>text content. fs path = Inr text \<and> parse text = Some content
            \<and> calls (on_change parse fs path s)
                = calls s @ [TopicUpdateSet path content defaultTopicSpec])
         \<and> path \<in> topics (settle (next_id s) Resolved
                            (run parse evs (on_change parse fs path s)))"
proof -
  obtain body content where read: "fs path = Inr body" and parsed: "parse body = Some content"
    and eq: "on_change parse fs path s =
               await (TopicUpdateSet path content defaultTopicSpec) (AwaitSet path)
                 (emit (ConsoleLog (''Updated topic '' @ path)) s)"
    using on_change_started [OF fresh started] by blast
  have c: "calls (on_change parse fs path s)
             = calls s @ [TopicUpdateSet path content defaultTopicSpec]"
    by (simp add: eq await_def emit_def)
  have "next_id s < next_id (on_change parse fs path s)"
    by (simp add: eq await_def emit_def)
  then have "inflight (run parse evs (on_change parse fs path s)) (next_id s)
               = inflight (on_change parse fs path s) (next_id s)"
    using pending by (rule run_inflight)
  then have "inflight (run parse evs (on_change parse fs path s)) (next_id s)
               = Some (AwaitSet path)"
    using started by simp
  then have "path \<in> topics (settle (next_id s) Resolved
                              (run parse evs (on_change parse fs path s)))"
    by (simp add: settle_set_resolved)
  with read parsed c show ?thesis by blast
qed

theorem change_success_witness:
  \<open>inflight demo (next_id demo) = None
   \<and> inflight (on_change demo_parse demo_fs ''cdn/a.json'' demo) (next_id demo)
       = Some (AwaitSet ''cdn/a.json'')
   \<and> calls (on_change demo_parse demo_fs ''cdn/a.json'' demo)
       = [TopicUpdateSet ''cdn/a.json'' [(''x'', 1)] defaultTopicSpec]
   \<and> ''cdn/a.json'' \<in> topics (settle (next_id demo) Resolved
        (run demo_parse [(demo_fs, TopicNotification ''cdn/a.json'' REMOVED)]
           (on_change demo_parse demo_fs ''cdn/a.json'' demo)))\<close>
proof -
  have fresh: "inflight demo (next_id demo) = None"
    by (simp add: demo_simps)
  have started: "inflight (on_change demo_parse demo_fs ''cdn/a.json'' demo) (next_id demo)
       = Some (AwaitSet ''cdn/a.json'')"
    by (simp add: demo_simps on_change_def setTopic_def demo_fs_def demo_parse_def
                  await_def emit_def)
  have pending: "\<forall>(f, e) \<in> set [(demo_fs, TopicNotification ''cdn/a.json'' REMOVED)].
                   \<forall>out. e \<noteq> Settle (next_id demo) out"
    by simp
  have c: \<open>calls (on_change demo_parse demo_fs ''cdn/a.json'' demo)
       = [TopicUpdateSet ''cdn/a.json'' [(''x'', 1)] defaultTopicSpec]\<close>
    by (simp add: demo_simps on_change_def setTopic_def demo_fs_def demo_parse_def
                  await_def emit_def)
  show ?thesis
    using change_success [OF fresh started pending] fresh started c by simp
qed

text \<open>
  Claim C2, as stated, fails. The \<^verbatim>\<open>change\<close> callback acts on tracked paths only:
  with \<^verbatim>\<open>cdn/a.json\<close> tracked and \<^verbatim>\<open>cdn/b.json\<close> on disk but not tracked, a change
  event for \<^verbatim>\<open>cdn/b.json\<close> issues no call and the tracked set stays as it was.
\<close>

theorem change_of_new_file_counterexample:
  \<open>demo_fs ''cdn/b.json'' = Inr ''{"x":1}''
   \<and> ''cdn/b.json'' \<notin> topics demo
   \<and> calls (run demo_parse [(demo_fs, Change ''cdn/b.json'')] demo) = []
   \<and> topics (run demo_parse [(demo_fs, Change ''cdn/b.json'')] demo) = {''cdn/a.json''}\<close>
  by (simp add: demo_simps demo_fs_def on_change_def)

text \<open>
  Claim C2, amended. For an untracked \<^verbatim>\<open>cdn/b.json\<close> that holds \<^verbatim>\<open>{"x":1}\<close>, a change
  event does nothing. A missing-topic request for it issues the write of the parsed value
  with the removal policy \<^verbatim>\<open>when subscriptions < 1 for 1m\<close>, and the path joins the
  tracked set when that write resolves.
\<close>

theorem new_file_created_on_request:
  assumes on_disk: \<open>fs ''cdn/b.json'' = Inr ''{"x":1}''\<close>
    and parsed: \<open>parse ''{"x":1}'' = Some content\<close>
    and untracked: "''cdn/b.json'' \<notin> topics s"
    and request: "mt_path n = ''cdn/b.json''"
  shows \<open>on_change parse fs ''cdn/b.json'' s = s
    \<and> calls (onMissingTopic parse fs n s)
        = calls s @ [TopicUpdateSet ''cdn/b.json'' content defaultTopicSpec]
    \<and> spec_properties defaultTopicSpec = [(''REMOVAL'', ''when subscriptions < 1 for 1m'')]
    \<and> topics (onMissingTopic parse fs n s) = topics s
    \<and> topics (settle (next_id s) Resolved (onMissingTopic parse fs n s))
        = insert ''cdn/b.json'' (topics s)\<close>
proof -
  have a: "on_change parse fs ''cdn/b.json'' s = s"
    using untracked by (simp add: on_change_def)
  have b: "onMissingTopic parse fs n s =
      (await (TopicUpdateSet ''cdn/b.json'' content defaultTopicSpec) (AwaitSet ''cdn/b.json'')
         (emit (Logger ''missing-topic-handler'' Info
                  (''Missing topic notification: path='' @ mt_path n
                   @ '', selector='' @ mt_selector n
                   @ '', session='' @ mt_sessionID n)) s))
        \<lparr>proceeded := proceeded s @ [''cdn/b.json'']\<rparr>"
    using on_disk parsed request
    by (simp add: onMissingTopic_def handleMissingTopic_def setTopic_def Let_def
                  await_def emit_def)
  have c: "inflight (onMissingTopic parse fs n s) (next_id s) = Some (AwaitSet ''cdn/b.json'')"
    by (simp add: b await_def emit_def)
  have d: "topics (onMissingTopic parse fs n s) = topics s"
    by (simp add: b await_def emit_def)
  show ?thesis
    using a d settle_set_resolved [OF c]
    by (simp add: b await_def emit_def defaultTopicSpec_def)
qed

theorem new_file_created_on_request_witness:
  \<open>demo_fs ''cdn/b.json'' = Inr ''{"x":1}''
   \<and> demo_parse ''{"x":1}'' = Some [(''x'', 1)]
   \<and> ''cdn/b.json'' \<notin> topics demo
   \<and> calls (onMissingTopic demo_parse demo_fs
        \<lparr>mt_path = ''cdn/b.json'', mt_selector = ''>cdn/b.json'', mt_sessionID = ''s1''\<rparr> demo)
       = [TopicUpdateSet ''cdn/b.json'' [(''x'', 1)] defaultTopicSpec]
   \<and> topics (settle (next_id demo) Resolved (onMissingTopic demo_parse demo_fs
        \<lparr>mt_path = ''cdn/b.json'', mt_selector = ''>cdn/b.json'', mt_sessionID = ''s1''\<rparr> demo))
       = {''cdn/a.json'', ''cdn/b.json''}\<close>
proof -
  have on_disk: \<open>demo_fs ''cdn/b.json'' = Inr ''{"x":1}''\<close>
    by (simp add: demo_fs_def)
  have parsed: \<open>demo_parse ''{"x":1}'' = Some [(''x'', 1)]\<close>
    by (simp add: demo_parse_def)
  have untracked: "''cdn/b.json'' \<notin> topics demo"
    by (simp add: demo_simps)
  have request: "mt_path
      \<lparr>mt_path = ''cdn/b.json'', mt_selector = ''>cdn/b.json'', mt_sessionID = ''s1''\<rparr>
      = ''cdn/b.json''"
    by simp
  show ?thesis
    using new_file_created_on_request
        [where fs = demo_fs and parse = demo_parse and s = demo and content = "[(''x'', 1)]"
           and n = "\<lparr>mt_path = ''cdn/b.json'', mt_selector = ''>cdn/b.json'',
                     mt_sessionID = ''s1''\<rparr>",
         OF on_disk parsed untracked request]
      on_disk parsed untracked
    by (simp add: demo_simps insert_commute)
qed

subsection \<open>Failures of \<^verbatim>\<open>setTopic\<close>\<close>

text \<open>
  Claim C5. A missing-topic request for a path whose file does not exist (\<^verbatim>\<open>errno\<close>
  \<open>-2\<close>) changes the state in two places only: two lines are logged, the second one the
  warning, and the notification is told to proceed. No call to the server is issued,
  nothing is left in flight, the tracked set is unchanged and no rejection is left
  unhandled.
\<close>

theorem missing_file_proceeds:
  assumes "fs (mt_path n) = Inl (- 2)"
  shows "onMissingTopic parse fs n s =
     s\<lparr>logged := logged s @
          [Logger ''missing-topic-handler'' Info
             (''Missing topic notification: path='' @ mt_path n
               @ '', selector='' @ mt_selector n @ '', session='' @ mt_sessionID n),
           Logger ''CDNHandler'' Warn
             (''Cannot satisfy missing topic '' @ mt_path n @ '', no existing file'')],
       proceeded := proceeded s @ [mt_path n]\<rparr>"
  using assms by (simp add: callback_defs)

theorem missing_file_proceeds_witness:
  "demo_fs ''cdn/c.json'' = Inl (- 2)
   \<and> proceeded (onMissingTopic demo_parse demo_fs
        \<lparr>mt_path = ''cdn/c.json'', mt_selector = ''>cdn/c.json'', mt_sessionID = ''s1''\<rparr> demo)
       = [''cdn/c.json'']
   \<and> calls (onMissingTopic demo_parse demo_fs
        \<lparr>mt_path = ''cdn/c.json'', mt_selector = ''>cdn/c.json'', mt_sessionID = ''s1''\<rparr> demo)
       = []
   \<and> topics (onMissingTopic demo_parse demo_fs
        \<lparr>mt_path = ''cdn/c.json'', mt_selector = ''>cdn/c.json'', mt_sessionID = ''s1''\<rparr> demo)
       = {''cdn/a.json''}"
proof -
  have h: "demo_fs (mt_path
      \<lparr>mt_path = ''cdn/c.json'', mt_selector = ''>cdn/c.json'', mt_sessionID = ''s1''\<rparr>)
      = Inl (- 2)"
    by (simp add: demo_fs_def)
  show ?thesis
    using missing_file_proceeds
        [where fs = demo_fs and parse = demo_parse and s = demo
           and n = "\<lparr>mt_path = ''cdn/c.json'', mt_selector = ''>cdn/c.json'',
                     mt_sessionID = ''s1''\<rparr>", OF h] h
    by (simp add: demo_simps)
qed

text \<open>
  Claim C6. Where the file exists and \<^verbatim>\<open>JSON.parse\<close> throws, \<^verbatim>\<open>setTopic\<close> logs the
  error at error level and does nothing else: no call to the server, nothing in flight,
  the tracked set as before, nothing left unhandled.
\<close>

theorem malformed_content_abandoned:
  assumes "fs path = Inr body" and "parse body = None"
  shows "setTopic parse fs path s
           = s\<lparr>logged := logged s @ [LoggerErr ''CDNHandler'' Error SyntaxError]\<rparr>"
  using assms by (simp add: setTopic_def setTopic_catch_def emit_def)

theorem malformed_content_abandoned_witness:
  "demo_fs ''cdn/bad.json'' = Inr ''{'' \<and> demo_parse ''{'' = None
   \<and> calls (setTopic demo_parse demo_fs ''cdn/bad.json'' demo) = []
   \<and> logged (setTopic demo_parse demo_fs ''cdn/bad.json'' demo)
       = logged demo @ [LoggerErr ''CDNHandler'' Error SyntaxError]"
proof -
  have f: "demo_fs ''cdn/bad.json'' = Inr ''{''"
    by (simp add: demo_fs_def)
  have p: "demo_parse ''{'' = None"
    by (simp add: demo_parse_def)
  show ?thesis
    using malformed_content_abandoned
        [where fs = demo_fs and path = "''cdn/bad.json''" and body = "''{''"
           and parse = demo_parse and s = demo, OF f p] f p
    by (simp add: demo_simps)
qed

text \<open>
  Claim C10. \<^verbatim>\<open>setTopic\<close> never changes the tracked set before its write has
  resolved: not in the part that runs up to the \<^verbatim>\<open>await\<close>, whatever the file holds,
  and not when the write is rejected. The path is inserted when the write resolves. Where
  the file cannot be read or parsed, the call leaves one log line and nothing else.
\<close>

theorem failure_keeps_tracked_set:
  "topics (setTopic parse fs path s) = topics s
   \<and> (inflight s i = Some (AwaitSet path) \<longrightarrow>
        topics (settle i (Rejected e) s) = topics s
        \<and> topics (settle i Resolved s) = insert path (topics s))
   \<and> ((\<exists>n. fs path = Inl n) \<or> (\<exists>body. fs path = Inr body \<and> parse body = None) \<longrightarrow>
        (\<exists>entry. setTopic parse fs path s = emit entry s))"
  by (auto simp: setTopic_def setTopic_catch_def setTopic_resume_def settle_def
                 await_def emit_def Let_def
           split: sum.splits option.splits)

theorem failure_keeps_tracked_set_witness:
  "topics (setTopic demo_parse demo_fs ''cdn/c.json'' demo) = {''cdn/a.json''}
   \<and> topics (setTopic demo_parse demo_fs ''cdn/bad.json'' demo) = {''cdn/a.json''}
   \<and> inflight (setTopic demo_parse demo_fs ''cdn/b.json'' demo) 0 = Some (AwaitSet ''cdn/b.json'')
   \<and> topics (settle 0 (Rejected (ServerError None))
               (setTopic demo_parse demo_fs ''cdn/b.json'' demo)) = {''cdn/a.json''}
   \<and> topics (settle 0 Resolved
               (setTopic demo_parse demo_fs ''cdn/b.json'' demo))
       = {''cdn/a.json'', ''cdn/b.json''}"
proof -
  have parked: "inflight (setTopic demo_parse demo_fs ''cdn/b.json'' demo) 0
                  = Some (AwaitSet ''cdn/b.json'')"
    by (simp add: setTopic_def demo_fs_def demo_parse_def await_def demo_simps)
  show ?thesis
    using failure_keeps_tracked_set [of demo_parse demo_fs "''cdn/c.json''" demo]
      failure_keeps_tracked_set [of demo_parse demo_fs "''cdn/bad.json''" demo]
      failure_keeps_tracked_set [of demo_parse demo_fs "''cdn/b.json''" demo]
      failure_keeps_tracked_set [of demo_parse demo_fs "''cdn/b.json''"
        "setTopic demo_parse demo_fs ''cdn/b.json'' demo" 0 "ServerError None"]
      parked
    by (simp add: demo_simps insert_commute)
qed

subsection \<open>Removal of a file\<close>

text \<open>
  Claim C3, as stated, fails. \<^verbatim>\<open>unsetTopic\<close> deletes the path after the
  \<^verbatim>\<open>await\<close> of the removal: when the \<^verbatim>\<open>unlink\<close> callback has returned and the
  removal is still in flight, the path is still a member.
\<close>

theorem unlink_keeps_member_counterexample:
  "''cdn/a.json'' \<in> topics demo
   \<and> inflight (on_unlink ''cdn/a.json'' demo) 0 = Some (AwaitRemove ''cdn/a.json'')
   \<and> ''cdn/a.json'' \<in> topics (on_unlink ''cdn/a.json'' demo)"
  by (simp add: demo_simps on_unlink_def unsetTopic_def await_def emit_def Let_def)

text \<open>
  Claim C3, amended. For a tracked path the \<^verbatim>\<open>unlink\<close> callback issues the removal
  and leaves the tracked set as it is. The path leaves the set when the removal resolves,
  whatever callbacks ran in between, and stays if the removal is rejected.
\<close>

theorem unlink_removes_on_resolution:
  assumes tracked: "path \<in> topics s"
    and pending: "\<forall>(f, e) \<in> set evs. \<forall>out. e \<noteq> Settle (next_id s) out"
  shows "calls (on_unlink path s) = calls s @ [TopicsRemove path]
    \<and> inflight (on_unlink path s) (next_id s) = Some (AwaitRemove path)
    \<and> topics (on_unlink path s) = topics s
    \<and> path \<notin> topics (settle (next_id s) Resolved (run parse evs (on_unlink path s)))
    \<and> topics (settle (next_id s) (Rejected e) (on_unlink path s)) = topics s"
proof -
  note eq = on_unlink_tracked [OF tracked]
  have parked: "inflight (on_unlink path s) (next_id s) = Some (AwaitRemove path)"
    by (simp add: eq await_def emit_def)
  have "next_id s < next_id (on_unlink path s)"
    by (simp add: eq await_def emit_def)
  then have "inflight (run parse evs (on_unlink path s)) (next_id s)
               = inflight (on_unlink path s) (next_id s)"
    using pending by (rule run_inflight)
  then have "inflight (run parse evs (on_unlink path s)) (next_id s) = Some (AwaitRemove path)"
    using parked by simp
  then have gone: "path \<notin> topics (settle (next_id s) Resolved (run parse evs (on_unlink path s)))"
    by (simp add: settle_remove_resolved)
  have rejected: "topics (settle (next_id s) (Rejected e) (on_unlink path s)) = topics s"
    using parked by (simp add: settle_def unsetTopic_resume_def) (simp add: eq await_def emit_def)
  show ?thesis
    using parked gone rejected by (simp add: eq await_def emit_def)
qed

theorem unlink_removes_on_resolution_witness:
  "''cdn/a.json'' \<in> topics demo
   \<and> calls (on_unlink ''cdn/a.json'' demo) = [TopicsRemove ''cdn/a.json'']
   \<and> topics (on_unlink ''cdn/a.json'' demo) = {''cdn/a.json''}
   \<and> ''cdn/a.json'' \<notin> topics (settle (next_id demo) Resolved
        (run demo_parse [(demo_fs, Change ''cdn/a.json'')] (on_unlink ''cdn/a.json'' demo)))"
proof -
  have tracked: "''cdn/a.json'' \<in> topics demo"
    by (simp add: demo_simps)
  have pending: "\<forall>(f, e) \<in> set [(demo_fs, Change ''cdn/a.json'')].
                   \<forall>out. e \<noteq> Settle (next_id demo) out"
    by simp
  show ?thesis
    using unlink_removes_on_resolution [OF tracked pending, of demo_parse] tracked
    by (simp add: demo_simps)
qed

text \<open>
  Claim C7, as stated, fails. The \<^verbatim>\<open>unlink\<close> callback does not await
  \<^verbatim>\<open>unsetTopic\<close>, so it has completed while the removal is still in flight and the
  path is still tracked: a second callback right after the first issues a second removal.
  The same happens when the first removal has been rejected, and then that rejection is
  left unhandled as well.
\<close>

theorem second_unlink_counterexample:
  "inflight (on_unlink ''cdn/a.json'' demo) 0 = Some (AwaitRemove ''cdn/a.json'')
   \<and> calls (on_unlink ''cdn/a.json'' (on_unlink ''cdn/a.json'' demo))
       = [TopicsRemove ''cdn/a.json'', TopicsRemove ''cdn/a.json'']
   \<and> calls (on_unlink ''cdn/a.json''
              (settle 0 (Rejected (ServerError None)) (on_unlink ''cdn/a.json'' demo)))
       = [TopicsRemove ''cdn/a.json'', TopicsRemove ''cdn/a.json'']
   \<and> unhandled (on_unlink ''cdn/a.json''
              (settle 0 (Rejected (ServerError None)) (on_unlink ''cdn/a.json'' demo)))
       = [ServerError None]"
  by (simp add: demo_simps on_unlink_def unsetTopic_def unsetTopic_resume_def settle_def
                await_def emit_def Let_def)

text \<open>
  Claim C7, amended. Once the removal issued by a first \<^verbatim>\<open>unlink\<close> callback has
  resolved, a second callback for the same path logs its first line and nothing more: over
  both callbacks at most one removal is issued, and no rejection is left unhandled.
\<close>

theorem second_unlink_issues_nothing:
  assumes fresh: "inflight s (next_id s) = None"
  shows "on_unlink path (settle (next_id s) Resolved (on_unlink path s))
           = emit (ConsoleLog (''File '' @ path @ '' unlinked''))
               (settle (next_id s) Resolved (on_unlink path s))
    \<and> calls (on_unlink path (settle (next_id s) Resolved (on_unlink path s)))
        = calls s @ (if path \<in> topics s then [TopicsRemove path] else [])
    \<and> unhandled (on_unlink path (settle (next_id s) Resolved (on_unlink path s)))
        = unhandled s"
proof (cases "path \<in> topics s")
  case True
  note eq = on_unlink_tracked [OF True]
  have parked: "inflight (on_unlink path s) (next_id s) = Some (AwaitRemove path)"
    by (simp add: eq await_def emit_def)
  have gone: "path \<notin> topics (settle (next_id s) Resolved (on_unlink path s))"
    using parked by (simp add: settle_remove_resolved)
  have c: "calls (settle (next_id s) Resolved (on_unlink path s)) = calls s @ [TopicsRemove path]"
    using parked by (simp add: settle_def unsetTopic_resume_def) (simp add: eq await_def emit_def)
  have u: "unhandled (settle (next_id s) Resolved (on_unlink path s)) = unhandled s"
    using parked by (simp add: settle_def unsetTopic_resume_def) (simp add: eq await_def emit_def)
  show ?thesis
    using True c u by (simp add: on_unlink_untracked [OF gone] emit_def)
next
  case False
  note eq = on_unlink_untracked [OF False]
  have same: "settle (next_id s) Resolved (on_unlink path s) = on_unlink path s"
    using fresh by (simp add: eq settle_def emit_def)
  have still: "path \<notin> topics (on_unlink path s)"
    using False by (simp add: eq emit_def)
  show ?thesis
    using False by (simp add: same on_unlink_untracked [OF still]) (simp add: eq emit_def)
qed

theorem second_unlink_issues_nothing_witness:
  "inflight demo (next_id demo) = None
   \<and> calls (on_unlink ''cdn/a.json'' (settle (next_id demo) Resolved
        (on_unlink ''cdn/a.json'' demo))) = [TopicsRemove ''cdn/a.json'']
   \<and> unhandled (on_unlink ''cdn/a.json'' (settle (next_id demo) Resolved
        (on_unlink ''cdn/a.json'' demo))) = []"
proof -
  have fresh: "inflight demo (next_id demo) = None"
    by (simp add: demo_simps)
  show ?thesis
    using second_unlink_issues_nothing [OF fresh, of "''cdn/a.json''", THEN conjunct2] fresh
    by (simp add: demo_simps)
qed

subsection \<open>Membership checks\<close>

text \<open>
  Claim C4, as stated, fails. \<^verbatim>\<open>handleMissingTopic\<close> writes a topic whose path is
  already tracked, and two \<^verbatim>\<open>unlink\<close> events for a tracked path issue two removals
  when the second arrives before the first removal has resolved.
\<close>

theorem unchecked_operations_counterexample:
  \<open>''cdn/a.json'' \<in> topics demo
   \<and> calls (run demo_parse
        [(demo_fs, MissingTopic \<lparr>mt_path = ''cdn/a.json'', mt_selector = ''>cdn/a.json'',
                                 mt_sessionID = ''s1''\<rparr>)] demo)
       = [TopicUpdateSet ''cdn/a.json'' [(''x'', 1)] defaultTopicSpec]
   \<and> calls (run demo_parse
        [(demo_fs, Unlink ''cdn/a.json''), (demo_fs, Unlink ''cdn/a.json'')] demo)
       = [TopicsRemove ''cdn/a.json'', TopicsRemove ''cdn/a.json'']\<close>
  by (simp add: demo_simps demo_fs_def demo_parse_def callback_defs Let_def)

text \<open>
  Claim C4, amended. The two callbacks of the watcher check membership before they act:
  for an untracked path \<^verbatim>\<open>change\<close> does nothing and \<^verbatim>\<open>unlink\<close> only logs.
  \<^verbatim>\<open>handleMissingTopic\<close> does not check: the calls it issues do not depend on the
  tracked set.
\<close>

theorem watcher_callbacks_check_membership:
  assumes "path \<notin> topics s"
  shows "on_change parse fs path s = s
    \<and> on_unlink path s = emit (ConsoleLog (''File '' @ path @ '' unlinked'')) s
    \<and> calls (on_unlink path s) = calls s
    \<and> calls (handleMissingTopic parse fs path (s\<lparr>topics := T\<rparr>))
        = calls (handleMissingTopic parse fs path s)"
  using assms
  by (simp add: on_change_def on_unlink_def handleMissingTopic_def setTopic_def
                setTopic_catch_def await_def emit_def Let_def
           split: sum.splits option.splits)

theorem watcher_callbacks_check_membership_witness:
  "''cdn/b.json'' \<notin> topics demo
   \<and> on_change demo_parse demo_fs ''cdn/b.json'' demo = demo
   \<and> calls (on_unlink ''cdn/b.json'' demo) = []
   \<and> calls (handleMissingTopic demo_parse demo_fs ''cdn/b.json''
              (demo\<lparr>topics := {''cdn/b.json''}\<rparr>))
       = calls (handleMissingTopic demo_parse demo_fs ''cdn/b.json'' demo)"
proof -
  have untracked: "''cdn/b.json'' \<notin> topics demo"
    by (simp add: demo_simps)
  show ?thesis
    using watcher_callbacks_check_membership
        [OF untracked, of demo_parse demo_fs "{''cdn/b.json''}", THEN conjunct2]
      watcher_callbacks_check_membership
        [OF untracked, of demo_parse demo_fs "{''cdn/b.json''}", THEN conjunct1] untracked
    by (simp add: demo_simps emit_def)
qed

subsection \<open>Topic notifications\<close>

text \<open>
  Claim C8. A notification of kind \<^verbatim>\<open>ADDED\<close> or \<^verbatim>\<open>SELECTED\<close> inserts its path into
  the tracked set, one of kind \<^verbatim>\<open>REMOVED\<close> or \<^verbatim>\<open>DESELECTED\<close> deletes it, and any
  other kind leaves the state as it is, as does a descendant notification. No
  notification issues a call to the server.
\<close>

theorem notification_updates_tracked_set:
  "((type = ADDED \<or> type = SELECTED) \<longrightarrow>
       topics (onTopicNotification path type s) = insert path (topics s))
   \<and> ((type = REMOVED \<or> type = DESELECTED) \<longrightarrow>
       topics (onTopicNotification path type s) = topics s - {path})
   \<and> ((\<exists>n. type = OTHER n) \<longrightarrow> onTopicNotification path type s = s)
   \<and> onDescendantNotification path type s = s
   \<and> calls (onTopicNotification path type s) = calls s
   \<and> inflight (onTopicNotification path type s) = inflight s"
  by (cases type) (simp_all add: onTopicNotification_def onDescendantNotification_def emit_def)

theorem notification_updates_tracked_set_witness:
  "topics (onTopicNotification ''cdn/b.json'' ADDED demo) = {''cdn/a.json'', ''cdn/b.json''}
   \<and> topics (onTopicNotification ''cdn/b.json'' SELECTED demo) = {''cdn/a.json'', ''cdn/b.json''}
   \<and> topics (onTopicNotification ''cdn/a.json'' REMOVED demo) = {}
   \<and> topics (onTopicNotification ''cdn/a.json'' DESELECTED demo) = {}
   \<and> onTopicNotification ''cdn/a.json'' (OTHER 4) demo = demo"
  using notification_updates_tracked_set [of ADDED "''cdn/b.json''" demo]
    notification_updates_tracked_set [of SELECTED "''cdn/b.json''" demo]
    notification_updates_tracked_set [of REMOVED "''cdn/a.json''" demo]
    notification_updates_tracked_set [of DESELECTED "''cdn/a.json''" demo]
    notification_updates_tracked_set [of "OTHER 4" "''cdn/a.json''" demo]
  by (simp add: demo_simps insert_commute)

subsection \<open>Paths outside the root\<close>

text \<open>
  Claim C9. The watcher, the notification selector and the missing-topic handler are all
  registered on the root the handler is built on, and a callback issues calls at the path
  of its own event only. So while every event delivered is within those registrations,
  no write or removal is ever issued at a path that is not under the root. The program
  has no call that reads a topic.
\<close>

theorem no_call_outside_root:
  assumes scoped: "\<forall>(fs, e) \<in> set evs. in_scope (register root) e"
    and outside: "\<not> under root path"
  shows "filter (\<lambda>c. call_path c = path) (calls (run parse evs s))
           = filter (\<lambda>c. call_path c = path) (calls s)
    \<and> watched (register root) = root
    \<and> missing_topic_path (register root) = root
    \<and> (\<forall>q. selector_covers (selected (register root)) q = under root q)"
proof -
  have "filter (\<lambda>c. call_path c = path) (calls (run parse evs s))
           = filter (\<lambda>c. call_path c = path) (calls s)"
    using scoped
  proof (induction evs arbitrary: s)
    case Nil
    then show ?case by simp
  next
    case (Cons x evs)
    obtain fs e where x: "x = (fs, e)"
      by (cases x)
    have "in_scope (register root) e"
      using Cons.prems x by simp
    then have "filter (\<lambda>c. call_path c = path) (calls (step parse (fs, e) s))
                 = filter (\<lambda>c. call_path c = path) (calls s)"
      using outside by (rule step_calls_frame)
    moreover have "filter (\<lambda>c. call_path c = path) (calls (run parse evs (step parse x s)))
                 = filter (\<lambda>c. call_path c = path) (calls (step parse x s))"
      using Cons.prems by (intro Cons.IH) simp
    ultimately show ?case
      using x by simp
  qed
  then show ?thesis
    by (simp add: register_def selector_covers_selector_of)
qed

theorem no_call_outside_root_witness:
  "in_scope (register ''cdn'')
      (MissingTopic \<lparr>mt_path = ''cdn/b.json'', mt_selector = ''>cdn/b.json'',
                      mt_sessionID = ''s1''\<rparr>)
   \<and> in_scope (register ''cdn'') (Unlink ''cdn/a.json'')
   \<and> \<not> under ''cdn'' ''cdnx/b.json''
   \<and> filter (\<lambda>c. call_path c = ''cdnx/b.json'')
        (calls (run demo_parse
           [(demo_fs, MissingTopic \<lparr>mt_path = ''cdn/b.json'',
               mt_selector = ''>cdn/b.json'', mt_sessionID = ''s1''\<rparr>),
            (demo_fs, Unlink ''cdn/a.json'')] demo)) = []
   \<and> calls (run demo_parse
           [(demo_fs, MissingTopic \<lparr>mt_path = ''cdn/b.json'',
               mt_selector = ''>cdn/b.json'', mt_sessionID = ''s1''\<rparr>),
            (demo_fs, Unlink ''cdn/a.json'')] demo)
       = [TopicUpdateSet ''cdn/b.json'' [(''x'', 1)] defaultTopicSpec,
          TopicsRemove ''cdn/a.json'']"
proof -
  have scoped: "\<forall>(fs, e) \<in> set [(demo_fs, MissingTopic \<lparr>mt_path = ''cdn/b.json'',
                          mt_selector = ''>cdn/b.json'', mt_sessionID = ''s1''\<rparr>),
                       (demo_fs, Unlink ''cdn/a.json'')].
      in_scope (register ''cdn'') e"
    by (simp add: register_def under_def)
  have outside: "\<not> under ''cdn'' ''cdnx/b.json''"
    by (simp add: under_def)
  have c: "calls (run demo_parse
           [(demo_fs, MissingTopic \<lparr>mt_path = ''cdn/b.json'',
               mt_selector = ''>cdn/b.json'', mt_sessionID = ''s1''\<rparr>),
            (demo_fs, Unlink ''cdn/a.json'')] demo)
       = [TopicUpdateSet ''cdn/b.json'' [(''x'', 1)] defaultTopicSpec,
          TopicsRemove ''cdn/a.json'']"
    by (simp add: demo_simps demo_fs_def demo_parse_def callback_defs Let_def)
  show ?thesis
    using no_call_outside_root [OF scoped outside, of demo_parse demo, THEN conjunct1]
      scoped outside c
    by (simp add: demo_simps)
qed

end
